theory Spec2Isabelle
  imports Main "HOL-Library.AList" "HOL-Library.Sublist"
begin

section \<open>Data model\<close>

subsection \<open>Keys and key codes (keyboard/\_base.py)\<close>

text \<open>
  The members of \<^verbatim>\<open>class Key(enum.Enum)\<close>, in the order of the source. The value of a
  member is platform specific (the base module assigns the placeholder \<^verbatim>\<open>0\<close> to each, the
  backend modules assign key codes), so the value table is a parameter
  \<open>kv :: Key \<Rightarrow> KeyCode option\<close> of every operation that reads \<^verbatim>\<open>.value\<close>: \<open>kv k\<close> is the
  key code object held by the member \<open>k\<close>, and \<open>None\<close> is a member whose value is \<^verbatim>\<open>None\<close>.
  Members are taken as pairwise distinct (no enum aliases).
\<close>

datatype (plugins only: code) Key =
    Key_alt | Key_alt_l | Key_alt_r | Key_alt_gr | Key_backspace | Key_caps_lock
  | Key_cmd | Key_cmd_l | Key_cmd_r | Key_ctrl | Key_ctrl_l | Key_ctrl_r
  | Key_delete | Key_down | Key_end | Key_enter | Key_esc
  | Key_f1 | Key_f2 | Key_f3 | Key_f4 | Key_f5 | Key_f6 | Key_f7 | Key_f8 | Key_f9 | Key_f10
  | Key_f11 | Key_f12 | Key_f13 | Key_f14 | Key_f15 | Key_f16 | Key_f17 | Key_f18 | Key_f19
  | Key_f20
  | Key_home | Key_left | Key_page_down | Key_page_up | Key_right
  | Key_shift | Key_shift_l | Key_shift_r | Key_space | Key_tab | Key_up
  | Key_insert | Key_menu | Key_num_lock | Key_pause | Key_print_screen | Key_scroll_lock

text \<open>
  \<^verbatim>\<open>class KeyCode\<close>: the four attributes set by \<^verbatim>\<open>__init__\<close>, and the identity of the
  object. The class defines neither \<^verbatim>\<open>__eq__\<close> nor \<^verbatim>\<open>__hash__\<close>, so \<^verbatim>\<open>==\<close>, \<^verbatim>\<open>in\<close> and
  membership in a \<^verbatim>\<open>set\<close> compare key codes by identity: two key codes built by two calls
  of the constructor differ, whatever their attributes. The field \<open>ident\<close> is the identity
  of the object (what \<^verbatim>\<open>id\<close> returns); no two objects share one, so HOL equality of the
  records is the comparison of the source. Python text is modelled as \<open>string\<close>, one
  \<open>char\<close> per character (exact for ASCII text).
\<close>

record KeyCode =
  ident :: nat
  vk :: "int option"
  char :: "string option"
  is_dead :: bool
  combining :: "string option"

text \<open>Python values that are passed as keys or carried by exceptions.\<close>

datatype pyval =
    PKey Key
  | PStr string
  | PKeyCode KeyCode
  | PInt int
  | PTuple "int list"
  | PNone

text \<open>
  A raised exception: the name of its class and its arguments. An exception raised by the
  interpreter itself (\<^verbatim>\<open>AttributeError\<close>, \<^verbatim>\<open>TypeError\<close>) is given no arguments.
\<close>

datatype exn = Exn string "pyval list"

definition ValueError :: "pyval list \<Rightarrow> exn" where
  "ValueError args = Exn ''ValueError'' args"

definition KeyError :: "pyval list \<Rightarrow> exn" where
  "KeyError args = Exn ''KeyError'' args"

definition AttributeError :: exn where
  "AttributeError = Exn ''AttributeError'' []"

definition TypeError :: exn where
  "TypeError = Exn ''TypeError'' []"

definition AssertionError :: "string \<Rightarrow> exn" where
  "AssertionError msg = Exn ''AssertionError'' [PStr msg]"

definition InvalidKeyException :: "pyval \<Rightarrow> exn" where
  "InvalidKeyException key = Exn ''InvalidKeyException'' [key]"

definition InvalidCharacterException :: "nat \<Rightarrow> char \<Rightarrow> exn" where
  "InvalidCharacterException i character =
     Exn ''InvalidCharacterException'' [PInt (int i), PStr [character]]"

text \<open>\<^verbatim>\<open>except ValueError\<close>: the handler matches on the class.\<close>

fun is_ValueError :: "exn \<Rightarrow> bool" where
  "is_ValueError (Exn name args) = (name = ''ValueError'')"

subsection \<open>Key code construction and dead-key composition\<close>

text \<open>
  Every call of the constructor makes a new object. The functions that stand for such a call
  take the identity \<open>i\<close> of the object made as their first argument after the library
  parameters.

  \<^verbatim>\<open>KeyCode(vk, char)\<close> with \<^verbatim>\<open>is_dead=False\<close>: the constructor sets \<^verbatim>\<open>combining = None\<close>.
\<close>

definition KeyCode_plain :: "nat \<Rightarrow> int option \<Rightarrow> string option \<Rightarrow> KeyCode" where
  "KeyCode_plain i v c = \<lparr>ident = i, vk = v, char = c, is_dead = False, combining = None\<rparr>"

text \<open>
  \<^verbatim>\<open>KeyCode.__init__\<close>. The parameter \<open>lookup\<close> stands for the library call
  \<^verbatim>\<open>unicodedata.lookup('COMBINING ' + unicodedata.name(char))\<close>, which raises when the
  character has no name or no combining form; \<^verbatim>\<open>unicodedata.name(None)\<close> is a
  \<^verbatim>\<open>TypeError\<close>.
\<close>

definition KeyCode_init ::
  "(string \<Rightarrow> exn + string) \<Rightarrow> nat \<Rightarrow> int option \<Rightarrow> string option \<Rightarrow> bool \<Rightarrow> exn + KeyCode" where
  "KeyCode_init lookup i v c d =
     (if d then
        (case c of
           None \<Rightarrow> Inl TypeError
         | Some ch \<Rightarrow>
             (case lookup ch of
                Inl e \<Rightarrow> Inl e
              | Inr m \<Rightarrow>
                  if m = [] then Inl (KeyError [PStr ch])
                  else Inr \<lparr>ident = i, vk = v, char = Some ch, is_dead = True,
                         combining = Some m\<rparr>))
      else Inr (KeyCode_plain i v c))"

text \<open>The class methods; \<^verbatim>\<open>vk\<close> defaults to \<^verbatim>\<open>0\<close>.\<close>

definition from_vk :: "nat \<Rightarrow> int \<Rightarrow> KeyCode" where
  "from_vk i v = KeyCode_plain i (Some v) None"

definition from_char :: "nat \<Rightarrow> string \<Rightarrow> KeyCode" where
  "from_char i c = KeyCode_plain i (Some 0) (Some c)"

definition from_dead :: "(string \<Rightarrow> exn + string) \<Rightarrow> nat \<Rightarrow> string \<Rightarrow> exn + KeyCode" where
  "from_dead lookup i c = KeyCode_init lookup i (Some 0) (Some c) True"

text \<open>
  \<^verbatim>\<open>KeyCode.join(self, key)\<close>; \<open>i\<close> is the identity of the key code that a successful call
  makes. The parameter \<open>nfc\<close> stands for \<^verbatim>\<open>unicodedata.normalize('NFC', _)\<close>.
  \<^verbatim>\<open>self.from_char(self.char)\<close> builds a plain key code with the character of \<open>self\<close> (also
  when that is \<^verbatim>\<open>None\<close>); adding \<^verbatim>\<open>None\<close> to a string (\<open>self\<close> not dead) is a \<^verbatim>\<open>TypeError\<close>.
\<close>

definition join :: "(string \<Rightarrow> string) \<Rightarrow> nat \<Rightarrow> KeyCode \<Rightarrow> KeyCode \<Rightarrow> exn + KeyCode" where
  "join nfc i self key =
     (if char key = Some '' '' \<or> (is_dead key \<and> char key = char self)
      then Inr (KeyCode_plain i (Some 0) (char self))
      else
        (case char key of
           Some c \<Rightarrow>
             (case combining self of
                None \<Rightarrow> Inl TypeError
              | Some m \<Rightarrow>
                  (let combined = nfc (c @ m)
                   in if combined \<noteq> [] then Inr (from_char i combined)
                      else Inl (ValueError [PKeyCode key])))
         | None \<Rightarrow> Inl (ValueError [PKeyCode key])))"

subsection \<open>Keyboard controller (keyboard/\_base.py)\<close>

text \<open>
  The state set up by \<^verbatim>\<open>Controller.__init__\<close>, and two fields that account for effects
  outside the object: \<open>handled\<close> is the effect of the platform hook \<^verbatim>\<open>_handle\<close>, the calls
  made to it, oldest first; \<open>fresh\<close> is the identity that the next key code made by the
  controller receives (every identity from \<open>fresh\<close> on is unused). \<open>Controller_init n\<close> is
  the controller built when the next unused identity is \<open>n\<close>.
\<close>

record Controller =
  modifiers :: "Key set"
  caps_lock :: bool
  dead_key :: "KeyCode option"
  handled :: "(KeyCode \<times> bool) list"
  fresh :: nat

definition Controller_init :: "nat \<Rightarrow> Controller" where
  "Controller_init n =
     \<lparr>modifiers = {}, caps_lock = False, dead_key = None, handled = [], fresh = n\<rparr>"

text \<open>The state after a key code with the identity \<open>fresh\<close> has been made.\<close>

definition alloc :: "Controller \<Rightarrow> Controller" where
  "alloc s = s\<lparr>fresh := Suc (fresh s)\<rparr>"

text \<open>
  \<^verbatim>\<open>_MODIFIER_KEYS\<close>, over the value table \<open>kv\<close>. The module keyboard/\_\_init\_\_.py
  declares the same table.
\<close>

definition MODIFIER_KEYS :: "(Key \<Rightarrow> KeyCode option) \<Rightarrow> (Key \<times> KeyCode option list) list" where
  "MODIFIER_KEYS kv =
     [(Key_alt_gr, [kv Key_alt_gr]),
      (Key_alt, [kv Key_alt, kv Key_alt_l, kv Key_alt_r]),
      (Key_cmd, [kv Key_cmd, kv Key_cmd_l, kv Key_cmd_r]),
      (Key_ctrl, [kv Key_ctrl, kv Key_ctrl_l, kv Key_ctrl_r]),
      (Key_shift, [kv Key_shift, kv Key_shift_l, kv Key_shift_r])]"

text \<open>\<^verbatim>\<open>_as_modifier\<close>: the first base whose tuple holds the key; \<^verbatim>\<open>None\<close> otherwise.\<close>

fun as_modifier_loop :: "(Key \<times> KeyCode option list) list \<Rightarrow> KeyCode option \<Rightarrow> Key option" where
  "as_modifier_loop [] key = None"
| "as_modifier_loop ((base, mods) # rest) key =
     (if key \<in> set mods then Some base else as_modifier_loop rest key)"

definition as_modifier :: "(Key \<Rightarrow> KeyCode option) \<Rightarrow> KeyCode option \<Rightarrow> Key option" where
  "as_modifier kv key = as_modifier_loop (MODIFIER_KEYS kv) key"

definition shift_pressed :: "Controller \<Rightarrow> bool" where
  "shift_pressed s = (if caps_lock s then True else Key_shift \<in> modifiers s)"

text \<open>\<^verbatim>\<open>str.upper\<close> and \<^verbatim>\<open>str.lower\<close>, on ASCII text.\<close>

definition upper_char :: "char \<Rightarrow> char" where
  "upper_char c =
     (case map_of (zip ''abcdefghijklmnopqrstuvwxyz'' ''ABCDEFGHIJKLMNOPQRSTUVWXYZ'') c of
        Some u \<Rightarrow> u
      | None \<Rightarrow> c)"

definition lower_char :: "char \<Rightarrow> char" where
  "lower_char c =
     (case map_of (zip ''ABCDEFGHIJKLMNOPQRSTUVWXYZ'' ''abcdefghijklmnopqrstuvwxyz'') c of
        Some l \<Rightarrow> l
      | None \<Rightarrow> c)"

definition upper :: "string \<Rightarrow> string" where
  "upper str = map upper_char str"

definition lower :: "string \<Rightarrow> string" where
  "lower str = map lower_char str"

text \<open>
  \<^verbatim>\<open>_resolve\<close>: the key code returned, and the state (changed when a key code is made).
  \<^verbatim>\<open>key in self._Key\<close> holds for the members of \<^verbatim>\<open>Key\<close> only; the value of a member is the
  object of the table, a key code that is passed on is the object given. A value that is
  neither a member, a string nor a key code falls off the end of the function, which returns
  \<^verbatim>\<open>None\<close>.
\<close>

definition resolve ::
  "(Key \<Rightarrow> KeyCode option) \<Rightarrow> pyval \<Rightarrow> Controller \<Rightarrow> exn + (KeyCode option \<times> Controller)" where
  "resolve kv key s =
     (case key of
        PKey k \<Rightarrow> Inr (kv k, s)
      | PStr str \<Rightarrow>
          if length str \<noteq> 1 then Inl (ValueError [PStr str])
          else Inr (Some (from_char (fresh s) str), alloc s)
      | PKeyCode kc \<Rightarrow>
          (case char kc of
             Some c \<Rightarrow>
               if shift_pressed s then Inr (Some (from_char (fresh s) (upper c)), alloc s)
               else Inr (Some kc, s)
           | None \<Rightarrow> Inr (Some kc, s))
      | _ \<Rightarrow> Inr (None, s))"

text \<open>
  A call of the platform hook \<^verbatim>\<open>_handle(key, is_press)\<close>. The backend is the parameter
  \<open>h\<close>: \<open>h key is_press = Some e\<close> when the hook raises \<open>e\<close>. The hook of the base class is
  \<open>\<lambda>_ _. Some (Exn ''NotImplementedError'' [])\<close>.
\<close>

definition handle ::
  "(KeyCode \<Rightarrow> bool \<Rightarrow> exn option) \<Rightarrow> KeyCode \<Rightarrow> bool \<Rightarrow> Controller \<Rightarrow> exn option \<times> Controller" where
  "handle h key is_press s = (h key is_press, s\<lparr>handled := handled s @ [(key, is_press)]\<rparr>)"

text \<open>Sequencing of two statements: an exception of the first skips the second.\<close>

definition and_then ::
  "exn option \<times> Controller \<Rightarrow> (Controller \<Rightarrow> exn option \<times> Controller) \<Rightarrow> exn option \<times> Controller" where
  "and_then r f = (case r of (Some e, s) \<Rightarrow> (Some e, s) | (None, s) \<Rightarrow> f s)"

text \<open>
  The end of the press branch of \<^verbatim>\<open>_dispatch\<close>: a dead key is kept for later, any other key
  goes to \<^verbatim>\<open>_handle\<close>. Reading \<^verbatim>\<open>key.is_dead\<close> of \<^verbatim>\<open>None\<close> is an \<^verbatim>\<open>AttributeError\<close>.
\<close>

definition dispatch_press_tail ::
  "(KeyCode \<Rightarrow> bool \<Rightarrow> exn option) \<Rightarrow> KeyCode option \<Rightarrow> Controller \<Rightarrow> exn option \<times> Controller" where
  "dispatch_press_tail h key s =
     (case key of
        None \<Rightarrow> (Some AttributeError, s)
      | Some k \<Rightarrow> if is_dead k then (None, s\<lparr>dead_key := Some k\<rparr>) else handle h k True s)"

text \<open>
  \<^verbatim>\<open>_dispatch(key, is_press)\<close>. Removing an absent modifier raises \<^verbatim>\<open>KeyError\<close>, which the
  source swallows: set difference. Only \<^verbatim>\<open>ValueError\<close> of \<^verbatim>\<open>join\<close> is caught; \<^verbatim>\<open>join\<close> on
  \<^verbatim>\<open>None\<close> fails reading \<^verbatim>\<open>key.char\<close>.
\<close>

definition dispatch ::
  "(KeyCode \<Rightarrow> bool \<Rightarrow> exn option) \<Rightarrow> (Key \<Rightarrow> KeyCode option) \<Rightarrow> (string \<Rightarrow> string) \<Rightarrow>
     KeyCode option \<Rightarrow> bool \<Rightarrow> Controller \<Rightarrow> exn option \<times> Controller" where
  "dispatch h kv nfc key is_press s0 =
     (let s1 =
        (case as_modifier kv key of
           Some modifier \<Rightarrow>
             if is_press then s0\<lparr>modifiers := insert modifier (modifiers s0)\<rparr>
             else s0\<lparr>modifiers := modifiers s0 - {modifier}\<rparr>
         | None \<Rightarrow> s0)
      in
        if is_press then
          (let s2 = (if key = kv Key_caps_lock then s1\<lparr>caps_lock := \<not> caps_lock s1\<rparr> else s1)
           in
             (case dead_key s2 of
                Some d \<Rightarrow>
                  (case key of
                     None \<Rightarrow> (Some AttributeError, s2)
                   | Some k \<Rightarrow>
                       (case join nfc (fresh s2) d k of
                          Inr joined \<Rightarrow>
                            dispatch_press_tail h (Some joined) ((alloc s2)\<lparr>dead_key := None\<rparr>)
                        | Inl e \<Rightarrow>
                            if is_ValueError e then
                              and_then (handle h d True s2) (\<lambda>s3.
                              and_then (handle h d False s3) (\<lambda>s4.
                              dispatch_press_tail h key (s4\<lparr>dead_key := None\<rparr>)))
                            else (Some e, s2)))
              | None \<Rightarrow> dispatch_press_tail h key s2))
        else
          (case key of
             None \<Rightarrow> (Some AttributeError, s1)
           | Some k \<Rightarrow> if is_dead k then (None, s1) else handle h k False s1))"

text \<open>\<^verbatim>\<open>press\<close>, \<^verbatim>\<open>release\<close> and \<^verbatim>\<open>touch\<close>.\<close>

definition press ::
  "(KeyCode \<Rightarrow> bool \<Rightarrow> exn option) \<Rightarrow> (Key \<Rightarrow> KeyCode option) \<Rightarrow> (string \<Rightarrow> string) \<Rightarrow>
     pyval \<Rightarrow> Controller \<Rightarrow> exn option \<times> Controller" where
  "press h kv nfc key s =
     (case resolve kv key s of
        Inl e \<Rightarrow> (Some e, s)
      | Inr (k, s') \<Rightarrow> dispatch h kv nfc k True s')"

definition release ::
  "(KeyCode \<Rightarrow> bool \<Rightarrow> exn option) \<Rightarrow> (Key \<Rightarrow> KeyCode option) \<Rightarrow> (string \<Rightarrow> string) \<Rightarrow>
     pyval \<Rightarrow> Controller \<Rightarrow> exn option \<times> Controller" where
  "release h kv nfc key s =
     (case resolve kv key s of
        Inl e \<Rightarrow> (Some e, s)
      | Inr (k, s') \<Rightarrow> dispatch h kv nfc k False s')"

definition touch ::
  "(KeyCode \<Rightarrow> bool \<Rightarrow> exn option) \<Rightarrow> (Key \<Rightarrow> KeyCode option) \<Rightarrow> (string \<Rightarrow> string) \<Rightarrow>
     pyval \<Rightarrow> bool \<Rightarrow> Controller \<Rightarrow> exn option \<times> Controller" where
  "touch h kv nfc key is_press s =
     (if is_press then press h kv nfc key s else release h kv nfc key s)"

text \<open>The loop \<^verbatim>\<open>for key in ks: self.press(key)\<close>; an exception leaves the loop.\<close>

fun press_each ::
  "(KeyCode \<Rightarrow> bool \<Rightarrow> exn option) \<Rightarrow> (Key \<Rightarrow> KeyCode option) \<Rightarrow> (string \<Rightarrow> string) \<Rightarrow>
     pyval list \<Rightarrow> Controller \<Rightarrow> exn option \<times> Controller" where
  "press_each h kv nfc [] s = (None, s)"
| "press_each h kv nfc (key # ks) s =
     and_then (press h kv nfc key s) (press_each h kv nfc ks)"

text \<open>
  The context manager \<^verbatim>\<open>pressed(*args)\<close> around a block \<open>body\<close>. The first loop runs before
  the \<^verbatim>\<open>try\<close>: if it raises, neither the block nor the \<^verbatim>\<open>finally\<close> clause runs. The
  \<^verbatim>\<open>finally\<close> clause runs whether or not the block raised; an exception of its own replaces
  the block's, otherwise the block's outcome stands. The clause calls \<^verbatim>\<open>self.press\<close> on the
  keys in reverse, as the source is written.
\<close>

definition pressed ::
  "(KeyCode \<Rightarrow> bool \<Rightarrow> exn option) \<Rightarrow> (Key \<Rightarrow> KeyCode option) \<Rightarrow> (string \<Rightarrow> string) \<Rightarrow>
     pyval list \<Rightarrow> (Controller \<Rightarrow> exn option \<times> Controller) \<Rightarrow> Controller \<Rightarrow>
     exn option \<times> Controller" where
  "pressed h kv nfc args body s =
     and_then (press_each h kv nfc args s) (\<lambda>s1.
       (case body s1 of
          (outcome, s2) \<Rightarrow>
            and_then (press_each h kv nfc (rev args) s2) (\<lambda>s3. (outcome, s3))))"

text \<open>
  \<^verbatim>\<open>type(string)\<close>: \<open>type_from i\<close> is the loop from index \<open>i\<close> on. A \<^verbatim>\<open>ValueError\<close> of the
  press or of the release becomes \<^verbatim>\<open>InvalidCharacterException(i, character)\<close>; any other
  exception passes through.
\<close>

definition rewrap :: "nat \<Rightarrow> char \<Rightarrow> exn \<Rightarrow> exn" where
  "rewrap i character e = (if is_ValueError e then InvalidCharacterException i character else e)"

definition press_release ::
  "(KeyCode \<Rightarrow> bool \<Rightarrow> exn option) \<Rightarrow> (Key \<Rightarrow> KeyCode option) \<Rightarrow> (string \<Rightarrow> string) \<Rightarrow>
     char \<Rightarrow> Controller \<Rightarrow> exn option \<times> Controller" where
  "press_release h kv nfc character s =
     and_then (press h kv nfc (PStr [character]) s) (release h kv nfc (PStr [character]))"

fun type_from ::
  "(KeyCode \<Rightarrow> bool \<Rightarrow> exn option) \<Rightarrow> (Key \<Rightarrow> KeyCode option) \<Rightarrow> (string \<Rightarrow> string) \<Rightarrow>
     nat \<Rightarrow> string \<Rightarrow> Controller \<Rightarrow> exn option \<times> Controller" where
  "type_from h kv nfc i [] s = (None, s)"
| "type_from h kv nfc i (character # rest) s =
     (case press_release h kv nfc character s of
        (Some e, s') \<Rightarrow> (Some (rewrap i character e), s')
      | (None, s') \<Rightarrow> type_from h kv nfc (Suc i) rest s')"

definition type_string ::
  "(KeyCode \<Rightarrow> bool \<Rightarrow> exn option) \<Rightarrow> (Key \<Rightarrow> KeyCode option) \<Rightarrow> (string \<Rightarrow> string) \<Rightarrow>
     string \<Rightarrow> Controller \<Rightarrow> exn option \<times> Controller" where
  "type_string h kv nfc str s = type_from h kv nfc 0 str s"

section \<open>Hot keys (keyboard/\_\_init\_\_.py)\<close>

text \<open>The names of the members of \<^verbatim>\<open>Key\<close>; \<^verbatim>\<open>Key[name]\<close> raises \<^verbatim>\<open>KeyError\<close> on any other name.\<close>

definition Key_names :: "(string \<times> Key) list" where
  "Key_names =
     [(''alt'', Key_alt), (''alt_l'', Key_alt_l), (''alt_r'', Key_alt_r),
      (''alt_gr'', Key_alt_gr), (''backspace'', Key_backspace), (''caps_lock'', Key_caps_lock),
      (''cmd'', Key_cmd), (''cmd_l'', Key_cmd_l), (''cmd_r'', Key_cmd_r), (''ctrl'', Key_ctrl),
      (''ctrl_l'', Key_ctrl_l), (''ctrl_r'', Key_ctrl_r), (''delete'', Key_delete),
      (''down'', Key_down), (''end'', Key_end), (''enter'', Key_enter), (''esc'', Key_esc),
      (''f1'', Key_f1), (''f2'', Key_f2), (''f3'', Key_f3), (''f4'', Key_f4), (''f5'', Key_f5),
      (''f6'', Key_f6), (''f7'', Key_f7), (''f8'', Key_f8), (''f9'', Key_f9),
      (''f10'', Key_f10), (''f11'', Key_f11), (''f12'', Key_f12), (''f13'', Key_f13),
      (''f14'', Key_f14), (''f15'', Key_f15), (''f16'', Key_f16), (''f17'', Key_f17),
      (''f18'', Key_f18), (''f19'', Key_f19), (''f20'', Key_f20), (''home'', Key_home),
      (''left'', Key_left), (''page_down'', Key_page_down), (''page_up'', Key_page_up),
      (''right'', Key_right), (''shift'', Key_shift), (''shift_l'', Key_shift_l),
      (''shift_r'', Key_shift_r), (''space'', Key_space), (''tab'', Key_tab), (''up'', Key_up),
      (''insert'', Key_insert), (''menu'', Key_menu), (''num_lock'', Key_num_lock),
      (''pause'', Key_pause), (''print_screen'', Key_print_screen),
      (''scroll_lock'', Key_scroll_lock)]"

definition Key_getitem :: "string \<Rightarrow> Key option" where
  "Key_getitem name = map_of Key_names name"

text \<open>
  \<^verbatim>\<open>_NORMAL_MODIFIERS\<close>: the dictionary built by the comprehension, as the list of its items
  in insertion order. Storing under a key that is present replaces the value in place.
\<close>

definition NORMAL_MODIFIERS :: "(Key \<Rightarrow> KeyCode option) \<Rightarrow> (KeyCode option \<times> Key) list" where
  "NORMAL_MODIFIERS kv =
     foldl (\<lambda>d (v, key). AList.update v key d) []
       (concat (map (\<lambda>(base, vs). map (\<lambda>v. (v, base)) vs) (MODIFIER_KEYS kv)))"

text \<open>The slice \<^verbatim>\<open>keys[start:i]\<close> for \<open>start \<le> i\<close>.\<close>

definition slice :: "string \<Rightarrow> nat \<Rightarrow> nat \<Rightarrow> string" where
  "slice str start i = take (i - start) (drop start str)"

text \<open>
  The generator \<^verbatim>\<open>parts()\<close> of \<^verbatim>\<open>HotKey.parse\<close>. \<open>parts_loop keys start i rest\<close> is the
  \<^verbatim>\<open>for\<close> loop at index \<open>i\<close> with \<open>rest\<close> the characters still to come; it gives the parts
  yielded and the final value of \<^verbatim>\<open>start\<close>.
\<close>

fun parts_loop :: "string \<Rightarrow> nat \<Rightarrow> nat \<Rightarrow> string \<Rightarrow> string list \<times> nat" where
  "parts_loop keys start i [] = ([], start)"
| "parts_loop keys start i (c # rest) =
     (if c = CHR ''+'' \<and> i \<noteq> start then
        (case parts_loop keys (i + 1) (i + 1) rest of
           (ps, start') \<Rightarrow> (slice keys start i # ps, start'))
      else parts_loop keys start (i + 1) rest)"

definition parts :: "string \<Rightarrow> exn + string list" where
  "parts keys =
     (case parts_loop keys 0 0 keys of
        (ps, start) \<Rightarrow>
          if start = length keys then Inl (ValueError [PStr keys])
          else Inr (ps @ [drop start keys]))"

text \<open>
  The inner function \<^verbatim>\<open>parse(s)\<close> of \<^verbatim>\<open>HotKey.parse\<close>; \<open>i\<close> is the identity of the key code
  that the call makes, if it makes one. The parameter \<open>int_of\<close> stands for the builtin
  \<^verbatim>\<open>int\<close> on strings (\<open>None\<close>: it raises \<^verbatim>\<open>ValueError\<close>).
\<close>

definition parse_inner ::
  "(Key \<Rightarrow> KeyCode option) \<Rightarrow> (string \<Rightarrow> int option) \<Rightarrow> nat \<Rightarrow> string \<Rightarrow> exn + pyval" where
  "parse_inner kv int_of i s =
     (if length s = 1 then Inr (PKeyCode (from_char i (lower s)))
      else if length s > 2 \<and> (hd s, last s) = (CHR ''<'', CHR ''>'') then
        (let p = butlast (tl s) in
           (case Key_getitem (lower p) of
              Some key \<Rightarrow>
                if key \<in> set (map snd (NORMAL_MODIFIERS kv)) then Inr (PKey key)
                else
                  (case kv key of
                     None \<Rightarrow> Inl (AssertionError ''Key has no value'')
                   | Some v \<Rightarrow>
                       (case vk v of
                          None \<Rightarrow> Inl (AssertionError ''KeyCode has no vk'')
                        | Some n \<Rightarrow> Inr (PKeyCode (from_vk i n))))
            | None \<Rightarrow>
                (case int_of p of
                   Some n \<Rightarrow> Inr (PKeyCode (from_vk i n))
                 | None \<Rightarrow> Inl (ValueError [PStr s]))))
      else Inl (ValueError [PStr s]))"

text \<open>
  The comprehension \<^verbatim>\<open>[parse(s) for s in raw_parts]\<close>: the first exception ends it. The
  calls make their key codes one after the other: the identities \<open>i\<close>, \<open>i + 1\<close>, ... are
  set aside for the parts in their order.
\<close>

fun parse_each ::
  "(Key \<Rightarrow> KeyCode option) \<Rightarrow> (string \<Rightarrow> int option) \<Rightarrow> nat \<Rightarrow> string list \<Rightarrow>
     exn + pyval list" where
  "parse_each kv int_of i [] = Inr []"
| "parse_each kv int_of i (s # ss) =
     (case parse_inner kv int_of i s of
        Inl e \<Rightarrow> Inl e
      | Inr part \<Rightarrow>
          (case parse_each kv int_of (Suc i) ss of
             Inl e \<Rightarrow> Inl e
           | Inr ps \<Rightarrow> Inr (part # ps)))"

text \<open>
  \<^verbatim>\<open>HotKey.parse(keys)\<close>, when the next unused identity is \<open>i\<close>. The test for duplicates
  compares the parts as \<^verbatim>\<open>set\<close> does: members of \<^verbatim>\<open>Key\<close> and key codes by identity.
\<close>

definition HotKey_parse ::
  "(Key \<Rightarrow> KeyCode option) \<Rightarrow> (string \<Rightarrow> int option) \<Rightarrow> nat \<Rightarrow> string \<Rightarrow> exn + pyval list" where
  "HotKey_parse kv int_of i keys =
     (case parts keys of
        Inl e \<Rightarrow> Inl e
      | Inr raw_parts \<Rightarrow>
          (case parse_each kv int_of i raw_parts of
             Inl e \<Rightarrow> Inl e
           | Inr parsed_parts \<Rightarrow>
               if length parsed_parts \<noteq> card (set parsed_parts)
               then Inl (ValueError [PStr keys])
               else Inr parsed_parts))"

text \<open>
  \<^verbatim>\<open>class HotKey\<close>. The callback \<^verbatim>\<open>_on_activate\<close> is opaque; \<open>hk_activated\<close> counts its
  invocations. The sets hold members of \<^verbatim>\<open>Key\<close> and key code objects.
\<close>

record HotKey =
  hk_state :: "pyval set"
  hk_keys :: "pyval set"
  hk_activated :: nat

definition HotKey_init :: "pyval list \<Rightarrow> HotKey" where
  "HotKey_init ks = \<lparr>hk_state = {}, hk_keys = set ks, hk_activated = 0\<rparr>"

definition HotKey_press :: "pyval \<Rightarrow> HotKey \<Rightarrow> HotKey" where
  "HotKey_press key hk =
     (if key \<in> hk_keys hk \<and> key \<notin> hk_state hk then
        (let hk' = hk\<lparr>hk_state := insert key (hk_state hk)\<rparr>
         in if hk_state hk' = hk_keys hk' then hk'\<lparr>hk_activated := Suc (hk_activated hk')\<rparr>
            else hk')
      else hk)"

definition HotKey_release :: "pyval \<Rightarrow> HotKey \<Rightarrow> HotKey" where
  "HotKey_release key hk =
     (if key \<in> hk_state hk then hk\<lparr>hk_state := hk_state hk - {key}\<rparr> else hk)"

text \<open>A sequence of calls on one hot key, as the listener makes them.\<close>

datatype hk_call = Press pyval | Release pyval

fun hk_step :: "HotKey \<Rightarrow> hk_call \<Rightarrow> HotKey" where
  "hk_step hk (Press key) = HotKey_press key hk"
| "hk_step hk (Release key) = HotKey_release key hk"

definition hk_run :: "hk_call list \<Rightarrow> HotKey \<Rightarrow> HotKey" where
  "hk_run calls hk = foldl hk_step hk calls"

section \<open>Mouse controller (mouse/\_xorg.py)\<close>

text \<open>
  \<^verbatim>\<open>Controller._check_bounds(*args)\<close>, on integer arguments (coordinates and scroll steps
  are \<^verbatim>\<open>int\<close>; \<^verbatim>\<open>int(p)\<close> of an integer is the integer).
\<close>

definition check_bounds :: "int list \<Rightarrow> exn + int list" where
  "check_bounds args =
     (if \<not> list_all (\<lambda>number. (- 0x7FFF - 1) \<le> number \<and> number \<le> 0x7FFF) args
      then Inl (ValueError [PTuple args])
      else Inr (map (\<lambda>p. p) args))"

section \<open>Sample instances of the parameters\<close>

text \<open>
  Concrete instances of the parameters, for the examples: a value table that gives the
  \<open>i\<close>-th member of \<^verbatim>\<open>Key\<close> the key code object \<open>i\<close> with the virtual key code \<open>i\<close>, a
  backend whose hook never raises, and fragments of the Unicode tables. The combining tilde
  lies outside \<open>char\<close>; \<open>CHR 0x7F\<close> stands for it, and \<open>CHR 0xF1\<close> is the letter n with
  tilde. The sample controller is built when the objects below 100 exist.
\<close>

fun index_of :: "'a list \<Rightarrow> 'a \<Rightarrow> nat" where
  "index_of [] x = 0"
| "index_of (y # ys) x = (if x = y then 0 else Suc (index_of ys x))"

definition sample_values :: "Key \<Rightarrow> KeyCode option" where
  "sample_values key =
     Some (from_vk (index_of (map snd Key_names) key) (int (index_of (map snd Key_names) key)))"

definition ok_backend :: "KeyCode \<Rightarrow> bool \<Rightarrow> exn option" where
  "ok_backend key is_press = None"

definition sample_lookup :: "string \<Rightarrow> exn + string" where
  "sample_lookup ch = (if ch = ''~'' then Inr [CHR 0x7F] else Inl (KeyError [PStr ch]))"

definition sample_nfc :: "string \<Rightarrow> string" where
  "sample_nfc str = (if str = [CHR ''n'', CHR 0x7F] then [CHR 0xF1] else str)"

definition dead_tilde :: KeyCode where
  "dead_tilde =
     \<lparr>ident = 60, vk = Some 0, char = Some ''~'', is_dead = True, combining = Some [CHR 0x7F]\<rparr>"

text \<open>A backend that cannot type the question mark, and a controller with a pending dead tilde.\<close>

definition picky_backend :: "KeyCode \<Rightarrow> bool \<Rightarrow> exn option" where
  "picky_backend key is_press =
     (if char key = Some ''?'' then Some (ValueError [PKeyCode key]) else None)"

definition pending_tilde :: Controller where
  "pending_tilde = (Controller_init 100)\<lparr>dead_key := Some dead_tilde\<rparr>"




text \<open>
  The calls of \<^verbatim>\<open>_handle\<close> that typing a string makes when each character is pressed and
  then released, the first key code made having the identity \<open>n\<close>.
\<close>

fun keystrokes :: "nat \<Rightarrow> string \<Rightarrow> (KeyCode \<times> bool) list" where
  "keystrokes n [] = []"
| "keystrokes n (c # cs) =
     (from_char n [c], True) # (from_char (Suc n) [c], False) # keystrokes (Suc (Suc n)) cs"

section \<open>Properties\<close>

subsection \<open>Mouse bounds\<close>

text \<open>
  C9. \<^verbatim>\<open>_check_bounds\<close> accepts every tuple whose coordinates all lie in the signed 16-bit
  range \<open>[-32768, 32767]\<close>, returning them as integers, and raises \<^verbatim>\<open>ValueError\<close> as soon
  as one coordinate lies outside; in particular it accepts \<open>(32767, -32768)\<close> and rejects
  \<open>(32768, 0)\<close>.
\<close>

theorem check_bounds_int16:
  "((\<forall>n \<in> set args. - 32768 \<le> n \<and> n \<le> 32767) \<longrightarrow> check_bounds args = Inr args)
   \<and> ((\<exists>n \<in> set args. n < - 32768 \<or> 32767 < n) \<longrightarrow>
        check_bounds args = Inl (ValueError [PTuple args]))
   \<and> check_bounds [32767, - 32768] = Inr [32767, - 32768]
   \<and> check_bounds [32768, 0] = Inl (ValueError [PTuple [32768, 0]])"
  by (auto simp: check_bounds_def list_all_iff)

theorem check_bounds_int16_witness:
  "(- 32768 \<le> (5::int) \<and> (5::int) \<le> 32767) \<and> check_bounds [5] = Inr [5]
   \<and> (32767 < (40000::int)) \<and> check_bounds [1, 40000] = Inl (ValueError [PTuple [1, 40000]])"
  using check_bounds_int16 [of "[5]"] check_bounds_int16 [of "[1, 40000]"]
  by simp

subsection \<open>Hot key state\<close>

lemma hk_step_subset: "hk_state hk \<subseteq> hk_keys hk \<Longrightarrow> hk_state (hk_step hk c) \<subseteq> hk_keys (hk_step hk c)"
  by (cases c) (auto simp: HotKey_press_def HotKey_release_def Let_def)

lemma hk_run_subset: "hk_state hk \<subseteq> hk_keys hk \<Longrightarrow> hk_state (hk_run calls hk) \<subseteq> hk_keys (hk_run calls hk)"
  unfolding hk_run_def
proof (induction calls arbitrary: hk)
  case Nil
  then show ?case by simp
next
  case (Cons c calls)
  from Cons.prems have "hk_state (hk_step hk c) \<subseteq> hk_keys (hk_step hk c)"
    by (rule hk_step_subset)
  then show ?case using Cons.IH by simp
qed

text \<open>
  C8. For every hot key built from a collection of keys and every sequence of \<^verbatim>\<open>press\<close> and
  \<^verbatim>\<open>release\<close> calls on it, the pressed state is a subset of the keys of the hot key after
  the sequence (hence after each call of it).
\<close>

theorem HotKey_state_subset_keys:
  "hk_state (hk_run calls (HotKey_init ks)) \<subseteq> hk_keys (hk_run calls (HotKey_init ks))"
  by (rule hk_run_subset) (simp add: HotKey_init_def)





subsection \<open>Dead-key composition\<close>

lemma KeyCode_init_dead:
  assumes "KeyCode_init lookup i v c True = Inr d"
  shows "\<exists>ch m. c = Some ch \<and> lookup ch = Inr m \<and> m \<noteq> [] \<and>
           d = \<lparr>ident = i, vk = v, char = Some ch, is_dead = True, combining = Some m\<rparr>"
  using assms by (auto simp: KeyCode_init_def split: option.splits sum.splits if_splits)

text \<open>
  C4, as the source has it. For every dead key code \<open>d\<close> (built by \<open>from_dead(ch)\<close>, with
  combining mark \<open>m\<close>) and key code \<open>k\<close>: \<open>d.join(k)\<close> is a new plain key code of \<open>ch\<close>
  when the character of \<open>k\<close> is a space or \<open>k\<close> is dead with character \<open>ch\<close>, in
  particular for \<open>k = from_char(' ')\<close>; otherwise, when \<open>k\<close> has a character, it is
  \<open>from_char\<close> of the normal form of that character followed by \<open>m\<close>, when that is not
  empty; in the remaining cases the call raises \<^verbatim>\<open>ValueError\<close> carrying \<open>k\<close>.
\<close>

theorem join_composition:
  assumes "from_dead lookup i0 ch = Inr d"
  shows "\<exists>m. is_dead d \<and> char d = Some ch \<and> combining d = Some m \<and> m \<noteq> []
     \<and> join nfc i d (from_char i1 '' '') = Inr (from_char i ch)
     \<and> ((char k = Some '' '' \<or> (is_dead k \<and> char k = Some ch)) \<longrightarrow>
           join nfc i d k = Inr (from_char i ch))
     \<and> (\<forall>kc. char k = Some kc \<and> kc \<noteq> '' '' \<and> \<not> (is_dead k \<and> kc = ch) \<and> nfc (kc @ m) \<noteq> [] \<longrightarrow>
           join nfc i d k = Inr (from_char i (nfc (kc @ m))))
     \<and> ((char k = None \<or> (\<exists>kc. char k = Some kc \<and> nfc (kc @ m) = []))
          \<and> char k \<noteq> Some '' '' \<and> \<not> (is_dead k \<and> char k = Some ch) \<longrightarrow>
           join nfc i d k = Inl (ValueError [PKeyCode k]))"
proof -
  from assms have "KeyCode_init lookup i0 (Some 0) (Some ch) True = Inr d"
    by (simp add: from_dead_def)
  from KeyCode_init_dead [OF this] obtain m where
    d: "lookup ch = Inr m" "m \<noteq> []"
       "d = \<lparr>ident = i0, vk = Some 0, char = Some ch, is_dead = True, combining = Some m\<rparr>"
    by blast
  show ?thesis
    by (rule exI [of _ m]) (auto simp: d join_def from_char_def KeyCode_plain_def Let_def)
qed

theorem join_composition_witness:
  "from_dead sample_lookup 60 ''~'' = Inr dead_tilde
   \<and> join sample_nfc 100 dead_tilde (from_char 70 '' '') = Inr (from_char 100 ''~'')
   \<and> join sample_nfc 100 dead_tilde dead_tilde = Inr (from_char 100 ''~'')
   \<and> join sample_nfc 100 dead_tilde (from_char 71 ''n'') = Inr (from_char 100 [CHR 0xF1])
   \<and> join sample_nfc 100 dead_tilde (from_vk 72 65) = Inl (ValueError [PKeyCode (from_vk 72 65)])
   \<and> join (\<lambda>str. []) 100 dead_tilde (from_char 71 ''n'')
       = Inl (ValueError [PKeyCode (from_char 71 ''n'')])"
proof -
  have d: "from_dead sample_lookup 60 ''~'' = Inr dead_tilde"
    by (simp add: from_dead_def KeyCode_init_def sample_lookup_def dead_tilde_def)
  have c: "char dead_tilde = Some ''~''" "combining dead_tilde = Some [CHR 0x7F]" "is_dead dead_tilde"
    by (simp_all add: dead_tilde_def)
  from join_composition [OF d, of sample_nfc 100 70 dead_tilde] c
  have "join sample_nfc 100 dead_tilde (from_char 70 '' '') = Inr (from_char 100 ''~'')"
       "join sample_nfc 100 dead_tilde dead_tilde = Inr (from_char 100 ''~'')"
    by auto
  moreover from join_composition [OF d, of sample_nfc 100 70 "from_char 71 ''n''"] c
  have "join sample_nfc 100 dead_tilde (from_char 71 ''n'') = Inr (from_char 100 [CHR 0xF1])"
    by (simp add: from_char_def KeyCode_plain_def sample_nfc_def)
  moreover from join_composition [OF d, of sample_nfc 100 70 "from_vk 72 65"] c
  have "join sample_nfc 100 dead_tilde (from_vk 72 65) = Inl (ValueError [PKeyCode (from_vk 72 65)])"
    by (simp add: from_vk_def KeyCode_plain_def)
  moreover from join_composition [OF d, of "\<lambda>str. []" 100 70 "from_char 71 ''n''"] c
  have "join (\<lambda>str. []) 100 dead_tilde (from_char 71 ''n'')
      = Inl (ValueError [PKeyCode (from_char 71 ''n'')])"
    by (simp add: from_char_def KeyCode_plain_def)
  ultimately show ?thesis using d by simp
qed

text \<open>
  The failure of \<^verbatim>\<open>join\<close> is a \<^verbatim>\<open>ValueError\<close>, the class that \<^verbatim>\<open>_dispatch\<close> catches; it is
  not an exception of a class \<^verbatim>\<open>InvalidComposition\<close>. Joining the dead tilde with a key code
  that has a virtual key code only:
\<close>

theorem join_InvalidComposition_counterexample:
  "from_dead sample_lookup 60 ''~'' = Inr dead_tilde
   \<and> join sample_nfc 100 dead_tilde (from_vk 72 65)
       = Inl (Exn ''ValueError'' [PKeyCode (from_vk 72 65)])
   \<and> join sample_nfc 100 dead_tilde (from_vk 72 65)
       \<noteq> Inl (Exn ''InvalidComposition'' [PKeyCode (from_vk 72 65)])"
  by (simp add: from_dead_def KeyCode_init_def sample_lookup_def dead_tilde_def join_def
      from_vk_def KeyCode_plain_def ValueError_def)

subsection \<open>Releasing a modifier that is not pressed\<close>

text \<open>
  C10. Releasing a modifier key whose base modifier is not in the modifier set raises no
  error of its own and leaves the modifier set (and the rest of the state) as it was; the
  release is passed on to \<^verbatim>\<open>_handle\<close>, whose outcome is the outcome of the call. Modifier
  keys are not dead keys.
\<close>

theorem release_absent_modifier:
  assumes "as_modifier kv (Some k) = Some m" and "m \<notin> modifiers s" and "\<not> is_dead k"
  shows "dispatch h kv nfc (Some k) False s = (h k False, s\<lparr>handled := handled s @ [(k, False)]\<rparr>)"
  using assms by (simp add: dispatch_def handle_def)

theorem release_absent_modifier_witness:
  "as_modifier sample_values (sample_values Key_shift_l) = Some Key_shift
   \<and> sample_values Key_shift_l = Some (from_vk 43 43)
   \<and> Key_shift \<notin> modifiers (Controller_init 100)
   \<and> \<not> is_dead (from_vk 43 43)
   \<and> dispatch ok_backend sample_values sample_nfc (Some (from_vk 43 43)) False (Controller_init 100)
       = (None, (Controller_init 100)\<lparr>handled := [(from_vk 43 43, False)]\<rparr>)"
proof -
  have v: "sample_values Key_shift_l = Some (from_vk 43 43)"
    by (simp add: sample_values_def Key_names_def from_vk_def KeyCode_plain_def)
  have a: "as_modifier sample_values (Some (from_vk 43 43)) = Some Key_shift"
    by (simp add: as_modifier_def MODIFIER_KEYS_def sample_values_def Key_names_def from_vk_def KeyCode_plain_def)
  have b: "Key_shift \<notin> modifiers (Controller_init 100)"
    by (simp add: Controller_init_def)
  have c: "\<not> is_dead (from_vk 43 43)"
    by (simp add: from_vk_def KeyCode_plain_def)
  from release_absent_modifier [OF a b c, of ok_backend sample_nfc] a b c v
  show ?thesis by (simp add: ok_backend_def Controller_init_def)
qed

subsection \<open>Dead keys in the dispatcher\<close>

lemma join_not_dead: "join nfc i d k = Inr j \<Longrightarrow> \<not> is_dead j"
  by (auto simp: join_def KeyCode_plain_def from_char_def Let_def split: if_splits option.splits)

lemma modifier_step_fields:
  "dead_key (case as_modifier kv key of
      Some modifier \<Rightarrow> if b then s\<lparr>modifiers := insert modifier (modifiers s)\<rparr>
             else s\<lparr>modifiers := modifiers s - {modifier}\<rparr>
    | None \<Rightarrow> s) = dead_key s"
  "handled (case as_modifier kv key of
      Some modifier \<Rightarrow> if b then s\<lparr>modifiers := insert modifier (modifiers s)\<rparr>
             else s\<lparr>modifiers := modifiers s - {modifier}\<rparr>
    | None \<Rightarrow> s) = handled s"
  "fresh (case as_modifier kv key of
      Some modifier \<Rightarrow> if b then s\<lparr>modifiers := insert modifier (modifiers s)\<rparr>
             else s\<lparr>modifiers := modifiers s - {modifier}\<rparr>
    | None \<Rightarrow> s) = fresh s"
  by (simp_all split: option.splits)

text \<open>
  C3, as the source has it. With a dead key \<open>d\<close> pending, the next press attempts
  \<open>d.join(k)\<close>. When the join succeeds, its result is handled in place of \<open>k\<close> and nothing
  is stashed, also when \<open>k\<close> is itself a dead key: a dead key pressed on the same pending
  dead key reaches \<^verbatim>\<open>_handle\<close> as the plain key of its character. When the join fails,
  \<open>d\<close> is flushed through \<^verbatim>\<open>_handle\<close> as a press and a release of its own before the new
  key is handled, three calls of \<^verbatim>\<open>_handle\<close> in all. A dead key pressed while no dead key
  is pending is stashed, and \<^verbatim>\<open>_dispatch\<close> returns without a call of \<^verbatim>\<open>_handle\<close>. A
  released dead key never reaches \<^verbatim>\<open>_handle\<close>.
\<close>

theorem dispatch_dead_key:
  "(dead_key s = Some d \<and> join nfc (fresh s) d k = Inr j \<longrightarrow>
      (\<exists>s'. dispatch h kv nfc (Some k) True s = (h j True, s')
         \<and> handled s' = handled s @ [(j, True)] \<and> dead_key s' = None))
   \<and> (dead_key s = Some d \<and> is_dead k \<and> char k = char d \<longrightarrow>
      (\<exists>s'. dispatch h kv nfc (Some k) True s
               = (h (KeyCode_plain (fresh s) (Some 0) (char d)) True, s')
         \<and> handled s' = handled s @ [(KeyCode_plain (fresh s) (Some 0) (char d), True)]
         \<and> dead_key s' = None))
   \<and> (dead_key s = Some d \<and> join nfc (fresh s) d k = Inl e \<and> is_ValueError e \<and> \<not> is_dead k
        \<and> h d True = None \<and> h d False = None \<longrightarrow>
      (\<exists>s'. dispatch h kv nfc (Some k) True s = (h k True, s')
         \<and> handled s' = handled s @ [(d, True), (d, False), (k, True)] \<and> dead_key s' = None))
   \<and> (dead_key s = None \<and> is_dead k \<longrightarrow>
      (\<exists>s'. dispatch h kv nfc (Some k) True s = (None, s')
         \<and> handled s' = handled s \<and> dead_key s' = Some k))
   \<and> (is_dead k \<longrightarrow>
      (\<exists>s'. dispatch h kv nfc (Some k) False s = (None, s')
         \<and> handled s' = handled s \<and> dead_key s' = dead_key s))"
proof (intro conjI impI)
  assume a: "dead_key s = Some d \<and> join nfc (fresh s) d k = Inr j"
  then have "\<not> is_dead j" using join_not_dead by blast
  with a show "\<exists>s'. dispatch h kv nfc (Some k) True s = (h j True, s')
         \<and> handled s' = handled s @ [(j, True)] \<and> dead_key s' = None"
    by (simp add: dispatch_def Let_def dispatch_press_tail_def handle_def alloc_def
        modifier_step_fields split: option.splits)
next
  assume a: "dead_key s = Some d \<and> is_dead k \<and> char k = char d"
  then have "join nfc (fresh s) d k = Inr (KeyCode_plain (fresh s) (Some 0) (char d))"
    by (simp add: join_def)
  with a show "\<exists>s'. dispatch h kv nfc (Some k) True s
               = (h (KeyCode_plain (fresh s) (Some 0) (char d)) True, s')
         \<and> handled s' = handled s @ [(KeyCode_plain (fresh s) (Some 0) (char d), True)]
         \<and> dead_key s' = None"
    by (simp add: dispatch_def Let_def dispatch_press_tail_def handle_def alloc_def
        modifier_step_fields KeyCode_plain_def split: option.splits)
next
  assume "dead_key s = Some d \<and> join nfc (fresh s) d k = Inl e \<and> is_ValueError e \<and> \<not> is_dead k
        \<and> h d True = None \<and> h d False = None"
  then show "\<exists>s'. dispatch h kv nfc (Some k) True s = (h k True, s')
         \<and> handled s' = handled s @ [(d, True), (d, False), (k, True)] \<and> dead_key s' = None"
    by (simp add: dispatch_def Let_def dispatch_press_tail_def handle_def and_then_def
        modifier_step_fields split: option.splits)
next
  assume "dead_key s = None \<and> is_dead k"
  then show "\<exists>s'. dispatch h kv nfc (Some k) True s = (None, s')
         \<and> handled s' = handled s \<and> dead_key s' = Some k"
    by (simp add: dispatch_def Let_def dispatch_press_tail_def modifier_step_fields
        split: option.splits)
next
  assume "is_dead k"
  then show "\<exists>s'. dispatch h kv nfc (Some k) False s = (None, s')
         \<and> handled s' = handled s \<and> dead_key s' = dead_key s"
    by (simp add: dispatch_def Let_def modifier_step_fields split: option.splits)
qed

theorem dispatch_dead_key_witness:
  "(dead_key pending_tilde = Some dead_tilde \<and> fresh pending_tilde = 100
    \<and> join sample_nfc 100 dead_tilde (from_char 71 ''n'') = Inr (from_char 100 [CHR 0xF1])
    \<and> handled (snd (dispatch ok_backend sample_values sample_nfc (Some (from_char 71 ''n'')) True
          pending_tilde)) = [(from_char 100 [CHR 0xF1], True)])
   \<and> (is_dead dead_tilde
    \<and> handled (snd (dispatch ok_backend sample_values sample_nfc (Some dead_tilde) True
          pending_tilde)) = [(from_char 100 ''~'', True)])
   \<and> (join sample_nfc 100 dead_tilde (from_vk 72 65) = Inl (ValueError [PKeyCode (from_vk 72 65)])
    \<and> is_ValueError (ValueError [PKeyCode (from_vk 72 65)]) \<and> \<not> is_dead (from_vk 72 65)
    \<and> handled (snd (dispatch ok_backend sample_values sample_nfc (Some (from_vk 72 65)) True
          pending_tilde)) = [(dead_tilde, True), (dead_tilde, False), (from_vk 72 65, True)]
    \<and> dead_key (snd (dispatch ok_backend sample_values sample_nfc (Some (from_vk 72 65)) True
          pending_tilde)) = None)
   \<and> (dead_key (Controller_init 100) = None
    \<and> handled (snd (dispatch ok_backend sample_values sample_nfc (Some dead_tilde) True
          (Controller_init 100))) = []
    \<and> dead_key (snd (dispatch ok_backend sample_values sample_nfc (Some dead_tilde) True
          (Controller_init 100))) = Some dead_tilde)
   \<and> handled (snd (dispatch ok_backend sample_values sample_nfc (Some dead_tilde) False
          pending_tilde)) = []"
proof -
  have p: "dead_key pending_tilde = Some dead_tilde" "handled pending_tilde = []"
      "fresh pending_tilde = 100"
    by (simp_all add: pending_tilde_def Controller_init_def)
  have i: "dead_key (Controller_init 100) = None" "handled (Controller_init 100) = []"
    by (simp_all add: Controller_init_def)
  have dd: "is_dead dead_tilde" "char dead_tilde = Some ''~''"
    by (simp_all add: dead_tilde_def)
  have j1: "join sample_nfc 100 dead_tilde (from_char 71 ''n'') = Inr (from_char 100 [CHR 0xF1])"
    by (simp add: join_def dead_tilde_def from_char_def KeyCode_plain_def sample_nfc_def)
  have j2: "join sample_nfc 100 dead_tilde (from_vk 72 65)
      = Inl (ValueError [PKeyCode (from_vk 72 65)])"
    by (simp add: join_def dead_tilde_def from_vk_def KeyCode_plain_def)
  have v: "is_ValueError (ValueError [PKeyCode (from_vk 72 65)])" "\<not> is_dead (from_vk 72 65)"
    by (simp_all add: ValueError_def from_vk_def KeyCode_plain_def)
  have ok: "ok_backend dead_tilde True = None" "ok_backend dead_tilde False = None"
    by (simp_all add: ok_backend_def)
  note inst = dispatch_dead_key [where h = ok_backend and kv = sample_values
      and nfc = sample_nfc and d = dead_tilde]
  from inst [where s = pending_tilde and k = "from_char 71 ''n''"
      and j = "from_char 100 [CHR 0xF1]", THEN conjunct1] p j1
  have c1: "handled (snd (dispatch ok_backend sample_values sample_nfc
      (Some (from_char 71 ''n'')) True pending_tilde)) = [(from_char 100 [CHR 0xF1], True)]"
    by auto
  from inst [where s = pending_tilde and k = dead_tilde, THEN conjunct2, THEN conjunct1] p dd
  have c1b: "handled (snd (dispatch ok_backend sample_values sample_nfc (Some dead_tilde) True
          pending_tilde)) = [(from_char 100 ''~'', True)]"
    by (auto simp: from_char_def)
  from inst [where s = pending_tilde and k = "from_vk 72 65"
      and e = "ValueError [PKeyCode (from_vk 72 65)]",
      THEN conjunct2, THEN conjunct2, THEN conjunct1] p j2 v ok
  have c2: "handled (snd (dispatch ok_backend sample_values sample_nfc (Some (from_vk 72 65)) True
          pending_tilde)) = [(dead_tilde, True), (dead_tilde, False), (from_vk 72 65, True)]
    \<and> dead_key (snd (dispatch ok_backend sample_values sample_nfc (Some (from_vk 72 65)) True
          pending_tilde)) = None"
    by auto
  from inst [where s = "Controller_init 100" and k = dead_tilde,
      THEN conjunct2, THEN conjunct2, THEN conjunct2, THEN conjunct1] i dd
  have c3: "handled (snd (dispatch ok_backend sample_values sample_nfc (Some dead_tilde) True
          (Controller_init 100))) = []
    \<and> dead_key (snd (dispatch ok_backend sample_values sample_nfc (Some dead_tilde) True
          (Controller_init 100))) = Some dead_tilde"
    by auto
  from inst [where s = pending_tilde and k = dead_tilde,
      THEN conjunct2, THEN conjunct2, THEN conjunct2, THEN conjunct2] p dd
  have c4: "handled (snd (dispatch ok_backend sample_values sample_nfc (Some dead_tilde) False
          pending_tilde)) = []"
    by auto
  show ?thesis using p i dd j1 j2 v c1 c1b c2 c3 c4 by simp
qed

text \<open>
  With the dead tilde pending, a press of the dead tilde is not stashed: the join comes
  first, and \<^verbatim>\<open>_handle\<close> receives the plain tilde.
\<close>

theorem dispatch_dead_on_pending_counterexample:
  "dead_key pending_tilde = Some dead_tilde \<and> is_dead dead_tilde
   \<and> handled pending_tilde = []
   \<and> handled (snd (dispatch ok_backend sample_values sample_nfc (Some dead_tilde) True
        pending_tilde)) = [(from_char 100 ''~'', True)]
   \<and> dead_key (snd (dispatch ok_backend sample_values sample_nfc (Some dead_tilde) True
        pending_tilde)) = None"
  by (simp add: pending_tilde_def Controller_init_def dead_tilde_def dispatch_def Let_def
      dispatch_press_tail_def handle_def alloc_def join_def as_modifier_def MODIFIER_KEYS_def
      sample_values_def Key_names_def ok_backend_def from_char_def from_vk_def KeyCode_plain_def)

subsection \<open>The scoped press\<close>

text \<open>
  C1, at the source as written. \<^verbatim>\<open>pressed('a', 'b')\<close> around an empty block presses \<open>a\<close>
  and \<open>b\<close> on entry and, on exit, presses \<open>b\<close> and \<open>a\<close> once more: no key is released.
  The same holds when the block raises: the exception leaves the block after a second press
  of each key.
\<close>

theorem pressed_presses_on_exit:
  "pressed ok_backend sample_values sample_nfc [PStr ''a'', PStr ''b''] (\<lambda>s. (None, s))
       (Controller_init 100)
     = (None, (Controller_init 104)\<lparr>handled :=
          [(from_char 100 ''a'', True), (from_char 101 ''b'', True),
           (from_char 102 ''b'', True), (from_char 103 ''a'', True)]\<rparr>)
   \<and> pressed ok_backend sample_values sample_nfc [PStr ''a'']
       (\<lambda>s. (Some (Exn ''RuntimeError'' []), s)) (Controller_init 100)
     = (Some (Exn ''RuntimeError'' []), (Controller_init 102)\<lparr>handled :=
          [(from_char 100 ''a'', True), (from_char 101 ''a'', True)]\<rparr>)"
  by (simp add: pressed_def and_then_def press_def resolve_def dispatch_def Let_def
      dispatch_press_tail_def handle_def alloc_def as_modifier_def MODIFIER_KEYS_def
      sample_values_def Key_names_def
      ok_backend_def Controller_init_def from_char_def from_vk_def KeyCode_plain_def)

subsection \<open>Keys that do not resolve\<close>

text \<open>
  C2, at the source as written. A string whose length is not 1 makes \<^verbatim>\<open>press\<close> and
  \<^verbatim>\<open>release\<close> fail with \<^verbatim>\<open>ValueError\<close>, the state untouched. A value that is neither a
  member of \<^verbatim>\<open>Key\<close>, a string nor a key code (an integer, \<^verbatim>\<open>None\<close>) resolves to \<^verbatim>\<open>None\<close>,
  on which \<^verbatim>\<open>_dispatch\<close> fails with \<^verbatim>\<open>AttributeError\<close>: \<^verbatim>\<open>InvalidKeyException\<close> is not
  raised.
\<close>

theorem press_unresolvable:
  "fst (press h kv nfc (PInt n) s) = Some AttributeError
   \<and> fst (release h kv nfc (PInt n) s) = Some AttributeError
   \<and> fst (press h kv nfc PNone s) = Some AttributeError
   \<and> fst (release h kv nfc PNone s) = Some AttributeError
   \<and> fst (press h kv nfc (PInt n) s) \<noteq> Some (InvalidKeyException (PInt n))
   \<and> fst (release h kv nfc (PInt n) s) \<noteq> Some (InvalidKeyException (PInt n))
   \<and> press h kv nfc (PStr str) s =
       (if length str \<noteq> 1 then (Some (ValueError [PStr str]), s)
        else dispatch h kv nfc (Some (from_char (fresh s) str)) True (alloc s))
   \<and> release h kv nfc (PStr str) s =
       (if length str \<noteq> 1 then (Some (ValueError [PStr str]), s)
        else dispatch h kv nfc (Some (from_char (fresh s) str)) False (alloc s))"
  by (simp add: press_def release_def resolve_def dispatch_def Let_def dispatch_press_tail_def
      AttributeError_def InvalidKeyException_def split: option.splits)

subsection \<open>Typing a string\<close>

lemma type_from_append:
  "type_from h kv nfc i (xs @ ys) s =
     (case type_from h kv nfc i xs s of
        (Some e, s') \<Rightarrow> (Some e, s')
      | (None, s') \<Rightarrow> type_from h kv nfc (i + length xs) ys s')"
  by (induction xs arbitrary: i s) (auto split: prod.splits option.splits)

lemma handled_dispatch: "prefix (handled s) (handled (snd (dispatch h kv nfc key b s)))"
  by (auto simp: dispatch_def Let_def dispatch_press_tail_def handle_def and_then_def alloc_def
      modifier_step_fields split: option.splits sum.splits prod.splits)

lemma handled_resolve: "resolve kv key s = Inr (k, s') \<Longrightarrow> handled s' = handled s"
  by (auto simp: resolve_def alloc_def split: pyval.splits if_splits option.splits)

lemma handled_press: "prefix (handled s) (handled (snd (press h kv nfc key s)))"
proof (cases "resolve kv key s")
  case (Inl e)
  then show ?thesis by (simp add: press_def)
next
  case (Inr r)
  obtain k s' where r: "r = (k, s')" by (cases r)
  have "handled s' = handled s" using handled_resolve Inr r by blast
  then show ?thesis
    using handled_dispatch [of s' h kv nfc k True] Inr r by (simp add: press_def)
qed

lemma handled_release: "prefix (handled s) (handled (snd (release h kv nfc key s)))"
proof (cases "resolve kv key s")
  case (Inl e)
  then show ?thesis by (simp add: release_def)
next
  case (Inr r)
  obtain k s' where r: "r = (k, s')" by (cases r)
  have "handled s' = handled s" using handled_resolve Inr r by blast
  then show ?thesis
    using handled_dispatch [of s' h kv nfc k False] Inr r by (simp add: release_def)
qed

lemma handled_press_release:
  "prefix (handled s) (handled (snd (press_release h kv nfc c s)))"
proof (cases "press h kv nfc (PStr [c]) s")
  case (Pair r s1)
  have 1: "prefix (handled s) (handled s1)"
    using handled_press [of s h kv nfc "PStr [c]"] Pair by simp
  have 2: "prefix (handled s1) (handled (snd (release h kv nfc (PStr [c]) s1)))"
    by (rule handled_release)
  show ?thesis
    using 1 2 Pair by (cases r) (auto simp: press_release_def and_then_def)
qed

lemma handled_type_from:
  "prefix (handled s) (handled (snd (type_from h kv nfc i xs s)))"
proof (induction xs arbitrary: i s)
  case Nil
  then show ?case by simp
next
  case (Cons c xs)
  obtain r s1 where pr: "press_release h kv nfc c s = (r, s1)"
    by (cases "press_release h kv nfc c s")
  have 1: "prefix (handled s) (handled s1)"
    using handled_press_release [of s h kv nfc c] pr by simp
  show ?case
  proof (cases r)
    case None
    then show ?thesis
      using pr 1 Cons.IH [where s = s1 and i = "Suc i"] by (auto intro: prefix_order.trans)
  next
    case (Some e)
    then show ?thesis using pr 1 by simp
  qed
qed

lemma press_release_ok:
  assumes "dead_key s = None" and "\<forall>k b. h k b = None"
  shows "\<exists>s'. press_release h kv nfc c s = (None, s') \<and> dead_key s' = None
     \<and> fresh s' = Suc (Suc (fresh s))
     \<and> handled s' = handled s
          @ [(from_char (fresh s) [c], True), (from_char (Suc (fresh s)) [c], False)]"
  using assms
  by (simp add: press_release_def press_def release_def resolve_def dispatch_def Let_def
      dispatch_press_tail_def handle_def and_then_def alloc_def modifier_step_fields
      from_char_def KeyCode_plain_def split: option.splits)

lemma type_from_ok:
  assumes "dead_key s = None" and "\<forall>k b. h k b = None"
  shows "\<exists>s'. type_from h kv nfc i str s = (None, s') \<and> dead_key s' = None
     \<and> handled s' = handled s @ keystrokes (fresh s) str"
  using assms(1)
proof (induction str arbitrary: i s)
  case Nil
  then show ?case by simp
next
  case (Cons c str)
  from press_release_ok [OF Cons.prems assms(2), of kv nfc c] obtain s1 where
    s1: "press_release h kv nfc c s = (None, s1)" "dead_key s1 = None"
        "fresh s1 = Suc (Suc (fresh s))"
        "handled s1 = handled s
          @ [(from_char (fresh s) [c], True), (from_char (Suc (fresh s)) [c], False)]"
    by blast
  from Cons.IH [where s = s1 and i = "Suc i", OF s1(2)] obtain s2 where
    s2: "type_from h kv nfc (Suc i) str s1 = (None, s2)" "dead_key s2 = None"
        "handled s2 = handled s1 @ keystrokes (fresh s1) str"
    by blast
  show ?case using s1 s2 by simp
qed

text \<open>
  C5. \<^verbatim>\<open>type(string)\<close> presses, then releases, each character in order: with no dead key
  pending and a backend that accepts every key, the calls of \<^verbatim>\<open>_handle\<close> are the press and
  the release of a new key code of each character, in the order of the string. When the
  characters before index \<open>length xs\<close> are typed and the press or the release of the
  character \<open>c\<close> at that index raises \<^verbatim>\<open>ValueError\<close>, the call fails with
  \<^verbatim>\<open>InvalidCharacterException(length xs, c)\<close> in the state that the failing call left:
  whatever follows \<open>c\<close> in the string has no effect, and the calls of \<^verbatim>\<open>_handle\<close> made
  before stay made.
\<close>

theorem type_stops_at_first_failure:
  "(dead_key s = None \<and> (\<forall>k b. h k b = None) \<longrightarrow>
      (\<exists>s'. type_string h kv nfc str s = (None, s')
         \<and> handled s' = handled s @ keystrokes (fresh s) str))
   \<and> (type_string h kv nfc xs s = (None, s1) \<and> press_release h kv nfc c s1 = (Some e, s2)
        \<and> is_ValueError e \<longrightarrow>
      type_string h kv nfc (xs @ c # rest) s
         = (Some (InvalidCharacterException (length xs) c), s2)
      \<and> prefix (handled s) (handled s1) \<and> prefix (handled s1) (handled s2))"
proof (intro conjI impI)
  assume "dead_key s = None \<and> (\<forall>k b. h k b = None)"
  then show "\<exists>s'. type_string h kv nfc str s = (None, s')
         \<and> handled s' = handled s @ keystrokes (fresh s) str"
    using type_from_ok [of s h kv nfc 0 str] by (auto simp: type_string_def)
next
  assume a: "type_string h kv nfc xs s = (None, s1) \<and> press_release h kv nfc c s1 = (Some e, s2)
        \<and> is_ValueError e"
  then show "type_string h kv nfc (xs @ c # rest) s
         = (Some (InvalidCharacterException (length xs) c), s2)"
    by (simp add: type_string_def type_from_append rewrap_def)
  from a show "prefix (handled s) (handled s1)"
    using handled_type_from [of s h kv nfc 0 xs] by (simp add: type_string_def)
  from a show "prefix (handled s1) (handled s2)"
    using handled_press_release [of s1 h kv nfc c] by simp
qed

theorem type_stops_at_first_failure_witness:
  "(dead_key (Controller_init 100) = None
    \<and> handled (snd (type_string ok_backend sample_values sample_nfc ''Hi'' (Controller_init 100)))
        = [(from_char 100 ''H'', True), (from_char 101 ''H'', False),
           (from_char 102 ''i'', True), (from_char 103 ''i'', False)])
   \<and> (type_string picky_backend sample_values sample_nfc ''a'' (Controller_init 100)
        = (None, (Controller_init 102)\<lparr>handled :=
             [(from_char 100 ''a'', True), (from_char 101 ''a'', False)]\<rparr>)
    \<and> press_release picky_backend sample_values sample_nfc CHR ''?''
          ((Controller_init 102)\<lparr>handled :=
             [(from_char 100 ''a'', True), (from_char 101 ''a'', False)]\<rparr>)
        = (Some (ValueError [PKeyCode (from_char 102 ''?'')]),
           (Controller_init 103)\<lparr>handled := [(from_char 100 ''a'', True),
             (from_char 101 ''a'', False), (from_char 102 ''?'', True)]\<rparr>)
    \<and> is_ValueError (ValueError [PKeyCode (from_char 102 ''?'')])
    \<and> type_string picky_backend sample_values sample_nfc ''a?b'' (Controller_init 100)
        = (Some (InvalidCharacterException 1 CHR ''?''),
           (Controller_init 103)\<lparr>handled := [(from_char 100 ''a'', True),
             (from_char 101 ''a'', False), (from_char 102 ''?'', True)]\<rparr>))"
proof -
  let ?s1 = "(Controller_init 102)\<lparr>handled :=
             [(from_char 100 ''a'', True), (from_char 101 ''a'', False)]\<rparr>"
  let ?s2 = "(Controller_init 103)\<lparr>handled := [(from_char 100 ''a'', True),
             (from_char 101 ''a'', False), (from_char 102 ''?'', True)]\<rparr>"
  let ?e = "ValueError [PKeyCode (from_char 102 ''?'')]"
  have i: "dead_key (Controller_init 100) = None" "handled (Controller_init 100) = []"
      "fresh (Controller_init 100) = 100"
    by (simp_all add: Controller_init_def)
  have ok: "\<forall>k b. ok_backend k b = None"
    by (simp add: ok_backend_def)
  have ks: "keystrokes 100 ''Hi'' = [(from_char 100 ''H'', True), (from_char 101 ''H'', False),
           (from_char 102 ''i'', True), (from_char 103 ''i'', False)]"
    by simp
  from type_stops_at_first_failure [where s = "Controller_init 100" and h = ok_backend
      and kv = sample_values and nfc = sample_nfc and str = "''Hi''", THEN conjunct1] i ok ks
  have a: "handled (snd (type_string ok_backend sample_values sample_nfc ''Hi''
        (Controller_init 100)))
        = [(from_char 100 ''H'', True), (from_char 101 ''H'', False),
           (from_char 102 ''i'', True), (from_char 103 ''i'', False)]"
    by auto
  have b: "type_string picky_backend sample_values sample_nfc ''a'' (Controller_init 100)
      = (None, ?s1)"
    by (simp add: type_string_def press_release_def and_then_def press_def release_def
        resolve_def dispatch_def Let_def dispatch_press_tail_def handle_def alloc_def
        as_modifier_def MODIFIER_KEYS_def sample_values_def Key_names_def picky_backend_def
        Controller_init_def from_char_def from_vk_def KeyCode_plain_def)
  have c: "press_release picky_backend sample_values sample_nfc CHR ''?'' ?s1 = (Some ?e, ?s2)"
    by (simp add: press_release_def and_then_def press_def release_def
        resolve_def dispatch_def Let_def dispatch_press_tail_def handle_def alloc_def
        as_modifier_def MODIFIER_KEYS_def sample_values_def Key_names_def picky_backend_def
        Controller_init_def from_char_def from_vk_def KeyCode_plain_def)
  have d: "is_ValueError ?e"
    by (simp add: ValueError_def)
  from type_stops_at_first_failure [where s = "Controller_init 100" and h = picky_backend
      and kv = sample_values and nfc = sample_nfc and xs = "''a''" and c = "CHR ''?''"
      and rest = "''b''" and ?s1.0 = ?s1 and ?s2.0 = ?s2 and e = ?e, THEN conjunct2] b c d
  have e: "type_string picky_backend sample_values sample_nfc ''a?b'' (Controller_init 100)
        = (Some (InvalidCharacterException 1 CHR ''?''), ?s2)"
    by simp
  show ?thesis using i a b c d e by simp
qed

subsection \<open>Parsing key combinations\<close>

lemma parts_loop_first:
  "parts_loop keys i i (c # rest) = parts_loop keys i (i + 1) rest"
  by simp

lemma parts_loop_scan:
  "CHR ''+'' \<notin> set s \<Longrightarrow>
     parts_loop keys start i (s @ rest) = parts_loop keys start (i + length s) rest"
  by (induction s arbitrary: i) auto

lemma slice_shift: "slice (pre @ k) (length pre + st) (length pre + i) = slice k st i"
  by (simp add: slice_def)

lemma parts_loop_shift:
  "parts_loop (pre @ k) (length pre + st) (length pre + i) rest =
     (case parts_loop k st i rest of (ps, st') \<Rightarrow> (ps, length pre + st'))"
proof (induction rest arbitrary: st i)
  case Nil
  then show ?case by simp
next
  case (Cons c rest)
  show ?case
  proof (cases "c = CHR ''+'' \<and> i \<noteq> st")
    case True
    have "parts_loop (pre @ k) (length pre + (i + 1)) (length pre + (i + 1)) rest =
        (case parts_loop k (i + 1) (i + 1) rest of (ps, st') \<Rightarrow> (ps, length pre + st'))"
      by (rule Cons.IH)
    then show ?thesis
      using True slice_shift [of pre k st i] by (simp add: add.assoc split: prod.splits)
  next
    case False
    have "parts_loop (pre @ k) (length pre + st) (length pre + (i + 1)) rest =
        (case parts_loop k st (i + 1) rest of (ps, st') \<Rightarrow> (ps, length pre + st'))"
      by (rule Cons.IH)
    then show ?thesis
      using False by (auto simp: add.assoc)
  qed
qed

lemma parts_single:
  assumes "CHR ''+'' \<notin> set s"
  shows "parts (c # s) = Inr [c # s]"
proof -
  have "parts_loop (c # s) 0 0 (c # s) = parts_loop (c # s) 0 (0 + 1) (s @ [])"
    using parts_loop_first [of "c # s" 0 c s] by simp
  also have "\<dots> = parts_loop (c # s) 0 (0 + 1 + length s) []"
    using assms by (rule parts_loop_scan)
  finally have "parts_loop (c # s) 0 0 (c # s) = ([], 0)" by simp
  then show ?thesis by (simp add: parts_def)
qed

lemma parts_separator:
  assumes "CHR ''+'' \<notin> set s"
  shows "parts (c # s @ CHR ''+'' # r) =
     (case parts r of
        Inl e \<Rightarrow> Inl (ValueError [PStr (c # s @ CHR ''+'' # r)])
      | Inr ps \<Rightarrow> Inr ((c # s) # ps))"
proof -
  let ?keys = "c # s @ CHR ''+'' # r"
  let ?pre = "c # s @ [CHR ''+'']"
  have k: "?keys = ?pre @ r" by simp
  obtain ps0 st0 where r: "parts_loop r 0 0 r = (ps0, st0)"
    by (cases "parts_loop r 0 0 r")
  have "parts_loop ?keys 0 0 ?keys = parts_loop ?keys 0 (0 + 1) (s @ CHR ''+'' # r)"
    using parts_loop_first [of ?keys 0 c "s @ CHR ''+'' # r"] by simp
  also have "\<dots> = parts_loop ?keys 0 (0 + 1 + length s) (CHR ''+'' # r)"
    using assms by (rule parts_loop_scan)
  finally have 1: "parts_loop ?keys 0 0 ?keys = parts_loop ?keys 0 (Suc (length s)) (CHR ''+'' # r)"
    by simp
  have sl: "slice ?keys 0 (Suc (length s)) = c # s"
    by (simp add: slice_def)
  have "parts_loop (?pre @ r) (length ?pre + 0) (length ?pre + 0) r =
      (case parts_loop r 0 0 r of (ps, st') \<Rightarrow> (ps, length ?pre + st'))"
    by (rule parts_loop_shift)
  then have 2: "parts_loop ?keys (Suc (Suc (length s))) (Suc (Suc (length s))) r
      = (ps0, Suc (Suc (length s)) + st0)"
    using r by simp
  have 3: "parts_loop ?keys 0 0 ?keys = ((c # s) # ps0, Suc (Suc (length s)) + st0)"
    using 1 2 sl by simp
  have 4: "drop (Suc (Suc (length s)) + st0) ?keys = drop st0 r"
    by simp
  show ?thesis
  proof (cases "st0 = length r")
    case True
    then show ?thesis using 3 r by (simp add: parts_def)
  next
    case False
    then show ?thesis using 3 4 r by (simp add: parts_def del: drop_Suc_Cons)
  qed
qed

lemma parts_loop_trailing:
  "start \<le> i \<Longrightarrow> c \<noteq> CHR ''+'' \<Longrightarrow>
     snd (parts_loop keys start i (xs @ [c, CHR ''+''])) = i + length xs + 2"
proof (induction xs arbitrary: start i)
  case Nil
  then show ?case by simp
next
  case (Cons x xs)
  show ?case
  proof (cases "x = CHR ''+'' \<and> i \<noteq> start")
    case True
    have "snd (parts_loop keys (i + 1) (i + 1) (xs @ [c, CHR ''+''])) = (i + 1) + length xs + 2"
      using Cons.IH [of "i + 1" "i + 1"] Cons.prems by simp
    then show ?thesis using True by (auto split: prod.splits)
  next
    case False
    have "snd (parts_loop keys start (i + 1) (xs @ [c, CHR ''+''])) = (i + 1) + length xs + 2"
      using Cons.IH [of start "i + 1"] Cons.prems by simp
    then show ?thesis using False by auto
  qed
qed

lemma parts_trailing:
  assumes "c \<noteq> CHR ''+''"
  shows "parts (ks @ [c, CHR ''+'']) = Inl (ValueError [PStr (ks @ [c, CHR ''+''])])"
proof -
  obtain ps start where l: "parts_loop (ks @ [c, CHR ''+'']) 0 0 (ks @ [c, CHR ''+'']) = (ps, start)"
    by (cases "parts_loop (ks @ [c, CHR ''+'']) 0 0 (ks @ [c, CHR ''+''])")
  have "start = length (ks @ [c, CHR ''+''])"
    using parts_loop_trailing [of 0 0 c "ks @ [c, CHR ''+'']" ks] assms l by simp
  then show ?thesis using l by (simp add: parts_def)
qed

lemma parse_inner_bad:
  assumes "1 < length s" and "\<not> (hd s = CHR ''<'' \<and> last s = CHR ''>'')"
  shows "parse_inner kv int_of i s = Inl (ValueError [PStr s])"
  using assms by (auto simp: parse_inner_def)

lemma parse_inner_complete:
  assumes "\<forall>key. \<exists>v n. kv key = Some v \<and> vk v = Some n"
    and "parse_inner kv int_of i s = Inl e"
  shows "e = ValueError [PStr s]"
proof -
  have 1: "\<And>key. kv key = None \<Longrightarrow> False"
    using assms(1) by (metis option.distinct(1))
  have 2: "\<And>key v. kv key = Some v \<Longrightarrow> vk v = None \<Longrightarrow> False"
    using assms(1) by (metis option.distinct(1) option.inject)
  show ?thesis
    using assms(2)
    by (auto simp: parse_inner_def Let_def split: if_splits option.splits dest: 1 2)
qed

lemma parse_each_bad:
  assumes "\<forall>key. \<exists>v n. kv key = Some v \<and> vk v = Some n"
    and "s \<in> set ps" and "1 < length s" and "\<not> (hd s = CHR ''<'' \<and> last s = CHR ''>'')"
  shows "\<exists>t. parse_each kv int_of i ps = Inl (ValueError [PStr t])"
  using assms(2)
proof (induction ps arbitrary: i)
  case Nil
  then show ?case by simp
next
  case (Cons p ps)
  show ?case
  proof (cases "parse_inner kv int_of i p")
    case (Inl e)
    then have "e = ValueError [PStr p]"
      using parse_inner_complete [OF assms(1)] by blast
    then show ?thesis using Inl by auto
  next
    case (Inr part)
    then have "p \<noteq> s"
      using parse_inner_bad [OF assms(3,4), of kv int_of i] by auto
    then have "s \<in> set ps" using Cons.prems by simp
    then obtain t where "parse_each kv int_of (Suc i) ps = Inl (ValueError [PStr t])"
      using Cons.IH by blast
    then show ?thesis using Inr by auto
  qed
qed

text \<open>
  C7, as the source has it. The parts of a combination string are cut as follows: the first
  character of a part is taken whatever it is, also a \<open>+\<close>, and the part runs up to the
  next \<open>+\<close>, which separates it from the part that follows. \<^verbatim>\<open>HotKey.parse\<close> raises
  \<^verbatim>\<open>ValueError\<close> for the empty string and for every string in which no part follows a
  separator, such as a string that ends in a \<open>+\<close> after another character; the part \<open>+\<close>
  is the key of that character. Where every key of the platform has a value with a virtual key
  code, the call raises \<^verbatim>\<open>ValueError\<close> for every string one of whose parts is longer than
  one character and not enclosed in angle brackets. Where ctrl and alt are among the values of
  \<^verbatim>\<open>_NORMAL_MODIFIERS\<close>, the string \<open><ctrl>+<alt>+t\<close> parses to three distinct parts.
\<close>

theorem HotKey_parse_errors:
  "HotKey_parse kv int_of i [] = Inl (ValueError [PStr []])
   \<and> (CHR ''+'' \<notin> set s \<longrightarrow> parts (c # s) = Inr [c # s])
   \<and> (CHR ''+'' \<notin> set s \<longrightarrow>
        parts (c # s @ CHR ''+'' # r) =
          (case parts r of
             Inl e \<Rightarrow> Inl (ValueError [PStr (c # s @ CHR ''+'' # r)])
           | Inr ps \<Rightarrow> Inr ((c # s) # ps)))
   \<and> (c \<noteq> CHR ''+'' \<longrightarrow>
        HotKey_parse kv int_of i (ks @ [c, CHR ''+''])
          = Inl (ValueError [PStr (ks @ [c, CHR ''+''])]))
   \<and> HotKey_parse kv int_of i ''+'' = Inr [PKeyCode (from_char i ''+'')]
   \<and> ((\<forall>key. \<exists>v n. kv key = Some v \<and> vk v = Some n) \<and> parts keys = Inr ps \<and> p \<in> set ps
        \<and> 1 < length p \<and> \<not> (hd p = CHR ''<'' \<and> last p = CHR ''>'') \<longrightarrow>
        (\<exists>t. HotKey_parse kv int_of i keys = Inl (ValueError [PStr t])))
   \<and> (Key_ctrl \<in> set (map snd (NORMAL_MODIFIERS kv)) \<and> Key_alt \<in> set (map snd (NORMAL_MODIFIERS kv))
        \<longrightarrow> HotKey_parse kv int_of i ''<ctrl>+<alt>+t''
              = Inr [PKey Key_ctrl, PKey Key_alt, PKeyCode (from_char (i + 2) ''t'')]
            \<and> distinct [PKey Key_ctrl, PKey Key_alt, PKeyCode (from_char (i + 2) ''t'')])"
proof (intro conjI impI)
  show "HotKey_parse kv int_of i [] = Inl (ValueError [PStr []])"
    by (simp add: HotKey_parse_def parts_def)
next
  assume "CHR ''+'' \<notin> set s"
  then show "parts (c # s) = Inr [c # s]"
    by (rule parts_single)
next
  assume "CHR ''+'' \<notin> set s"
  then show "parts (c # s @ CHR ''+'' # r) =
          (case parts r of
             Inl e \<Rightarrow> Inl (ValueError [PStr (c # s @ CHR ''+'' # r)])
           | Inr ps \<Rightarrow> Inr ((c # s) # ps))"
    by (rule parts_separator)
next
  assume "c \<noteq> CHR ''+''"
  then show "HotKey_parse kv int_of i (ks @ [c, CHR ''+''])
      = Inl (ValueError [PStr (ks @ [c, CHR ''+''])])"
    by (simp add: HotKey_parse_def parts_trailing)
next
  show "HotKey_parse kv int_of i ''+'' = Inr [PKeyCode (from_char i ''+'')]"
    by (simp add: HotKey_parse_def parts_def parse_inner_def lower_def lower_char_def)
next
  assume a: "(\<forall>key. \<exists>v n. kv key = Some v \<and> vk v = Some n) \<and> parts keys = Inr ps \<and> p \<in> set ps
        \<and> 1 < length p \<and> \<not> (hd p = CHR ''<'' \<and> last p = CHR ''>'')"
  then obtain t where "parse_each kv int_of i ps = Inl (ValueError [PStr t])"
    using parse_each_bad [of kv p ps int_of i] by blast
  then show "\<exists>t. HotKey_parse kv int_of i keys = Inl (ValueError [PStr t])"
    using a by (auto simp: HotKey_parse_def)
next
  assume a: "Key_ctrl \<in> set (map snd (NORMAL_MODIFIERS kv))
      \<and> Key_alt \<in> set (map snd (NORMAL_MODIFIERS kv))"
  have p: "parts ''<ctrl>+<alt>+t'' = Inr [''<ctrl>'', ''<alt>'', ''t'']"
    by (simp add: parts_def slice_def)
  have c: "parse_inner kv int_of i ''<ctrl>'' = Inr (PKey Key_ctrl)"
    using a by (simp add: parse_inner_def lower_def lower_char_def Key_getitem_def Key_names_def)
  have l: "parse_inner kv int_of (Suc i) ''<alt>'' = Inr (PKey Key_alt)"
    using a by (simp add: parse_inner_def lower_def lower_char_def Key_getitem_def Key_names_def)
  have t: "parse_inner kv int_of (Suc (Suc i)) ''t'' = Inr (PKeyCode (from_char (i + 2) ''t''))"
    by (simp add: parse_inner_def lower_def lower_char_def)
  show "HotKey_parse kv int_of i ''<ctrl>+<alt>+t''
      = Inr [PKey Key_ctrl, PKey Key_alt, PKeyCode (from_char (i + 2) ''t'')]"
    by (simp add: HotKey_parse_def p c l t)
  show "distinct [PKey Key_ctrl, PKey Key_alt, PKeyCode (from_char (i + 2) ''t'')]"
    by simp
qed

theorem HotKey_parse_errors_witness:
  "(CHR ''+'' \<notin> set [] \<and> parts ''+'' = Inr [''+''])
   \<and> (CHR ''+'' \<notin> set ''ctrl>'' \<and> parts ''<ctrl>++'' = Inr [''<ctrl>'', ''+''])
   \<and> (CHR ''+'' \<notin> set ''a'' \<and> parts ''+a+'' = Inl (ValueError [PStr ''+a+'']))
   \<and> (CHR ''a'' \<noteq> CHR ''+''
    \<and> HotKey_parse sample_values (\<lambda>p. None) 100 ''a+'' = Inl (ValueError [PStr ''a+'']))
   \<and> ((\<forall>key. \<exists>v n. sample_values key = Some v \<and> vk v = Some n)
    \<and> parts ''ctrl+a'' = Inr [''ctrl'', ''a''] \<and> 1 < length ''ctrl''
    \<and> \<not> (hd ''ctrl'' = CHR ''<'' \<and> last ''ctrl'' = CHR ''>'')
    \<and> (\<exists>t. HotKey_parse sample_values (\<lambda>p. None) 100 ''ctrl+a'' = Inl (ValueError [PStr t])))
   \<and> (parts ''a++b'' = Inr [''a'', ''+b''] \<and> 1 < length ''+b''
    \<and> (\<exists>t. HotKey_parse sample_values (\<lambda>p. None) 100 ''a++b'' = Inl (ValueError [PStr t])))
   \<and> (Key_ctrl \<in> set (map snd (NORMAL_MODIFIERS sample_values))
    \<and> Key_alt \<in> set (map snd (NORMAL_MODIFIERS sample_values))
    \<and> HotKey_parse sample_values (\<lambda>p. None) 100 ''<ctrl>+<alt>+t''
        = Inr [PKey Key_ctrl, PKey Key_alt, PKeyCode (from_char 102 ''t'')])"
proof -
  note inst = HotKey_parse_errors [where kv = sample_values and int_of = "\<lambda>p. None" and i = 100]
  have s1: "parts ''+'' = Inr [''+'']"
    using inst [where c = "CHR ''+''" and s = "[]", THEN conjunct2, THEN conjunct1] by simp
  have s2: "parts ''<ctrl>++'' = Inr [''<ctrl>'', ''+'']"
    using inst [where c = "CHR ''<''" and s = "''ctrl>''" and r = "''+''",
        THEN conjunct2, THEN conjunct2, THEN conjunct1] s1
    by simp
  have s3: "parts ''+a+'' = Inl (ValueError [PStr ''+a+''])"
    using inst [where c = "CHR ''+''" and s = "''a''" and r = "[]",
        THEN conjunct2, THEN conjunct2, THEN conjunct1]
    by (simp add: parts_def)
  have a: "CHR ''a'' \<noteq> CHR ''+''" by simp
  from inst [where c = "CHR ''a''" and ks = "[]",
      THEN conjunct2, THEN conjunct2, THEN conjunct2, THEN conjunct1] a
  have a': "HotKey_parse sample_values (\<lambda>p. None) 100 ''a+'' = Inl (ValueError [PStr ''a+''])"
    by simp
  have b: "\<forall>key. \<exists>v n. sample_values key = Some v \<and> vk v = Some n"
    by (simp add: sample_values_def from_vk_def KeyCode_plain_def)
  have b1: "parts ''ctrl+a'' = Inr [''ctrl'', ''a'']"
    by (simp add: parts_def slice_def)
  have b2: "1 < length ''ctrl''" "\<not> (hd ''ctrl'' = CHR ''<'' \<and> last ''ctrl'' = CHR ''>'')"
    by simp_all
  from inst [where keys = "''ctrl+a''" and ps = "[''ctrl'', ''a'']" and p = "''ctrl''",
      THEN conjunct2, THEN conjunct2, THEN conjunct2, THEN conjunct2, THEN conjunct2,
      THEN conjunct1] b b1 b2
  have b': "\<exists>t. HotKey_parse sample_values (\<lambda>p. None) 100 ''ctrl+a''
      = Inl (ValueError [PStr t])"
    by simp
  have c1: "parts ''a++b'' = Inr [''a'', ''+b'']"
    by (simp add: parts_def slice_def)
  have c2: "1 < length ''+b''" "\<not> (hd ''+b'' = CHR ''<'' \<and> last ''+b'' = CHR ''>'')"
    by simp_all
  from inst [where keys = "''a++b''" and ps = "[''a'', ''+b'']" and p = "''+b''",
      THEN conjunct2, THEN conjunct2, THEN conjunct2, THEN conjunct2, THEN conjunct2,
      THEN conjunct1] b c1 c2
  have c': "\<exists>t. HotKey_parse sample_values (\<lambda>p. None) 100 ''a++b''
      = Inl (ValueError [PStr t])"
    by simp
  have d: "Key_ctrl \<in> set (map snd (NORMAL_MODIFIERS sample_values))"
          "Key_alt \<in> set (map snd (NORMAL_MODIFIERS sample_values))"
    by (simp_all add: NORMAL_MODIFIERS_def MODIFIER_KEYS_def sample_values_def Key_names_def
        from_vk_def KeyCode_plain_def)
  from inst [THEN conjunct2, THEN conjunct2, THEN conjunct2, THEN conjunct2, THEN conjunct2,
      THEN conjunct2] d
  have d': "HotKey_parse sample_values (\<lambda>p. None) 100 ''<ctrl>+<alt>+t''
        = Inr [PKey Key_ctrl, PKey Key_alt, PKeyCode (from_char 102 ''t'')]"
    by simp
  show ?thesis using s1 s2 s3 a a' b b1 b2 b' c1 c2 c' d d' by simp
qed

text \<open>
  A leading, a trailing and a doubled \<open>+\<close> that parse: the strings \<open>+\<close>, \<open><ctrl>++\<close>
  and \<open>++a\<close>.
\<close>

theorem HotKey_parse_plus_counterexample:
  "HotKey_parse sample_values (\<lambda>p. None) 100 ''+'' = Inr [PKeyCode (from_char 100 ''+'')]
   \<and> HotKey_parse sample_values (\<lambda>p. None) 100 ''<ctrl>++''
       = Inr [PKey Key_ctrl, PKeyCode (from_char 101 ''+'')]
   \<and> HotKey_parse sample_values (\<lambda>p. None) 100 ''++a''
       = Inr [PKeyCode (from_char 100 ''+''), PKeyCode (from_char 101 ''a'')]"
  by (simp add: HotKey_parse_def parts_def slice_def parse_inner_def lower_def lower_char_def
      Key_getitem_def Key_names_def NORMAL_MODIFIERS_def MODIFIER_KEYS_def sample_values_def
      from_vk_def from_char_def KeyCode_plain_def)

text \<open>
  The parts of \<open>a+a\<close> are two key codes made by two calls of \<open>from_char\<close>, which the
  test for duplicates tells apart.
\<close>

lemma HotKey_parse_equal_characters: "HotKey_parse sample_values (\<lambda>p. None) 100 ''a+a''
       = Inr [PKeyCode (from_char 100 ''a''), PKeyCode (from_char 101 ''a'')]"
  by (simp add: HotKey_parse_def parts_def slice_def parse_inner_def lower_def lower_char_def
      from_char_def KeyCode_plain_def)

end
